theory Spec2Isabelle
  imports Complex_Main "HOL-Library.Word"
begin

section \<open>JavaScript strings\<close>

text \<open>
  A JavaScript string is a sequence of UTF-16 code units. The literals of \<open>App.tsx\<close> are
  written with \<open>ascii\<close>; the few code units beyond ASCII that the prompt template holds
  are written as numbers, as the source file has them.
\<close>

type_synonym jschar = "16 word"
type_synonym jsstring = "jschar list"

definition ascii :: "string \<Rightarrow> jsstring" where
  "ascii cs = map (\<lambda>c. of_char c) cs"

text \<open>
  \<open>String.prototype.trim\<close> strips WhiteSpace and LineTerminator code points from both
  ends (ECMAScript, 22.1.3.32). All of them are single code units.
\<close>

definition isWhiteSpace :: "jschar \<Rightarrow> bool" where
  "isWhiteSpace c \<longleftrightarrow>
     c \<in> set [0x0009, 0x000A, 0x000B, 0x000C, 0x000D, 0x0020, 0x00A0, 0x1680,
              0x2028, 0x2029, 0x202F, 0x205F, 0x3000, 0xFEFF]
     \<or> (0x2000 \<le> c \<and> c \<le> 0x200A)"

definition trim :: "jsstring \<Rightarrow> jsstring" where
  "trim t = rev (dropWhile isWhiteSpace (rev (dropWhile isWhiteSpace t)))"

text \<open>A string is truthy when it is not the empty string.\<close>

definition truthy :: "jsstring \<Rightarrow> bool" where
  "truthy t \<longleftrightarrow> t \<noteq> []"

text \<open>The decimal digits of a non-negative integer, as a template literal renders it.\<close>

fun decimal :: "nat \<Rightarrow> jsstring" where
  "decimal n =
     (if n < 10 then [of_nat (48 + n)]
      else decimal (n div 10) @ [of_nat (48 + n mod 10)])"

text \<open>\<open>Array.prototype.join\<close>.\<close>

fun join :: "jsstring \<Rightarrow> jsstring list \<Rightarrow> jsstring" where
  "join sep [] = []"
| "join sep [x] = x"
| "join sep (x # y # ys) = x @ sep @ join sep (y # ys)"

section \<open>The state of the component\<close>

text \<open>The six \<open>useState\<close> cells of \<open>App\<close> (lines 10 to 15).\<close>

record state =
  question :: jsstring
  numCards :: int
  cardNames :: "jsstring list"
  reading :: jsstring
  isLoading :: bool
  error :: jsstring

definition initial :: state where
  "initial = \<lparr>question = [], numCards = 1, cardNames = [[]], reading = [],
              isLoading = False, error = []\<rparr>"

section \<open>The handlers of the form\<close>

datatype js_error = RangeError

text \<open>
  \<open>handleNumCardsChange\<close> (lines 17 to 21). \<open>Array(num)\<close> throws a RangeError unless
  \<open>num\<close> is an integer from 0 to 2^32 - 1; the model takes integers only. A read past the
  end of \<open>cardNames\<close> gives \<open>undefined\<close>, which \<open>||\<close> replaces by the empty string, as it
  does an empty entry.
\<close>

definition handleNumCardsChange :: "int \<Rightarrow> state \<Rightarrow> js_error + state" where
  "handleNumCardsChange num s =
     (if num < 0 \<or> 2 ^ 32 \<le> num then Inl RangeError
      else Inr (s\<lparr>numCards := num,
                   cardNames :=
                     map (\<lambda>index.
                            if index < length (cardNames s) \<and> truthy (cardNames s ! index)
                            then cardNames s ! index else [])
                         [0 ..< nat num]\<rparr>))"

text \<open>
  \<open>handleCardNameChange\<close> (lines 23 to 27) copies the array and writes one element,
  leaving \<open>numCards\<close> alone. A write at the index just past the end appends the name. A
  write further out makes JavaScript grow the copy and leave holes between, which are
  not strings: the result is then no value of \<open>string[]\<close>, and the model returns \<open>None\<close>.
\<close>

definition handleCardNameChange :: "nat \<Rightarrow> jsstring \<Rightarrow> state \<Rightarrow> state option" where
  "handleCardNameChange index name s =
     (if index < length (cardNames s)
      then Some (s\<lparr>cardNames := (cardNames s)[index := name]\<rparr>)
      else if index = length (cardNames s)
      then Some (s\<lparr>cardNames := cardNames s @ [name]\<rparr>)
      else None)"

section \<open>The request\<close>

datatype role = System | User

record chat_message =
  role :: role
  content :: jsstring

record request =
  apiKey :: jsstring
  model :: jsstring
  messages :: "chat_message list"
  max_tokens :: nat
  temperature :: rat

definition question_error :: jsstring where
  "question_error = ascii ''Please enter your question or situation.''"

definition cards_error :: jsstring where
  "cards_error = ascii ''Please enter at least one card name.''"

definition apiKey_error :: jsstring where
  "apiKey_error = ascii ''OpenAI API key not configured. Please add your API key to the environment variables.''"

definition failed_error :: jsstring where
  "failed_error = ascii ''Failed to generate reading. Please check your API key and try again.''"

definition fallback_reading :: jsstring where
  "fallback_reading = ascii ''Unable to generate reading. Please try again.''"

definition system_content :: jsstring where
  "system_content = ascii ''You are an experienced, compassionate tarot reader with deep knowledge of tarot symbolism and interpretation. Provide thoughtful, insightful readings that help people reflect on their situations and find guidance.''"

text \<open>The template literal of lines 56 to 80, cut at its four interpolations.\<close>

definition prompt_intro :: jsstring where
  \<open>prompt_intro =
     ascii ''As an experienced tarot reader, please provide an insightful interpretation for this reading:\<newline>''
   @ ascii ''\<newline>''
   @ ascii ''Question/Situation: "''\<close>

definition prompt_drawn :: jsstring where
  \<open>prompt_drawn =
     ascii ''"\<newline>''
   @ ascii ''\<newline>''
   @ ascii ''Cards drawn (''\<close>

definition prompt_cards :: jsstring where
  "prompt_cards = ascii '' cards):\<newline>''"

definition prompt_outro :: jsstring where
  "prompt_outro =
     ascii ''\<newline>''
   @ ascii ''\<newline>''
   @ ascii ''Please provide a thoughtful, compassionate interpretation that addresses the question and explains how each card relates to the situation. Include practical guidance and insights.\<newline>''
   @ ascii ''\<newline>''
   @ ascii ''Format your response with these sections using markdown:\<newline>''
   @ ascii ''# '' @ [0x011F, 0x0178, 0x0152, 0x0178] @ ascii '' Your Tarot Reading\<newline>''
   @ ascii ''## '' @ [0x011F, 0x0178, 0x201C] @ ascii '' Your Question\<newline>''
   @ ascii ''## '' @ [0x011F, 0x0178, 0x0192] @ ascii '' Cards Drawn\<newline>''
   @ ascii ''## '' @ [0x00E2, 0x0153, 0x00A8] @ ascii '' Overall Energy & Theme\<newline>''
   @ ascii ''## '' @ [0x011F, 0x0178, 0x201D, 0x00AE] @ ascii '' Individual Card Interpretations\<newline>''
   @ ascii ''### Card 1: [Card Name]\<newline>''
   @ ascii ''**Position Meaning**: [meaning]\<newline>''
   @ ascii ''**Interpretation**: [detailed interpretation]\<newline>''
   @ ascii ''**Key Messages**: \<newline>''
   @ ascii ''- [message 1]\<newline>''
   @ ascii ''- [message 2]\<newline>''
   @ ascii ''- [message 3]\<newline>''
   @ ascii ''## '' @ [0x011F, 0x0178, 0x0152, 0x2122] @ ascii '' Synthesis & Overall Guidance\<newline>''
   @ ascii ''## '' @ [0x011F, 0x0178, 0x2019, 0x00AB] @ ascii '' Practical Next Steps\<newline>''
   @ ascii ''## '' @ [0x011F, 0x0178, 0x2122] @ ascii '' Final Thoughts''"

text \<open>Line 61: each card on a line of its own, numbered from 1.\<close>

definition cardLine :: "nat \<Rightarrow> jsstring \<Rightarrow> jsstring" where
  "cardLine index card_name = decimal (index + 1) @ ascii ''. '' @ card_name"

definition cardLines :: "jsstring list \<Rightarrow> jsstring list" where
  "cardLines filledCards = map (\<lambda>(index, card_name). cardLine index card_name) (enumerate 0 filledCards)"

definition prompt :: "jsstring \<Rightarrow> jsstring list \<Rightarrow> jsstring" where
  "prompt q filledCards =
     prompt_intro @ q @ prompt_drawn @ decimal (length filledCards) @ prompt_cards
     @ join (ascii ''\<newline>'') (cardLines filledCards) @ prompt_outro"

text \<open>The argument of \<open>openai.chat.completions.create\<close> (lines 81 to 95).\<close>

definition create_request :: "jsstring \<Rightarrow> jsstring \<Rightarrow> request" where
  "create_request key p =
     \<lparr>apiKey = key, model = ascii ''gpt-4'',
      messages = [\<lparr>role = System, content = system_content\<rparr>,
                  \<lparr>role = User, content = p\<rparr>],
      max_tokens = 2000, temperature = 7 / 10\<rparr>"

section \<open>\<open>generateReading\<close>\<close>

text \<open>
  The function is asynchronous with one \<open>await\<close> (line 81). \<open>generateReading\<close> is the
  part that runs when the button is clicked, up to the \<open>await\<close> or to an early return:
  it gives the state after the setters it called and the requests it issued.
  \<open>VITE_OPENAI_API_KEY\<close> is \<open>undefined\<close> (\<open>None\<close>) or a string, and \<open>!apiKey\<close> holds for
  \<open>undefined\<close> and for the empty string.
\<close>

definition filled :: "jsstring list \<Rightarrow> jsstring list" where
  "filled names = filter (\<lambda>name. truthy (trim name)) names"

definition generateReading :: "jsstring option \<Rightarrow> state \<Rightarrow> state \<times> request list" where
  "generateReading env_key s =
     (if \<not> truthy (trim (question s)) then (s\<lparr>error := question_error\<rparr>, [])
      else let filledCards = filled (cardNames s) in
        if length filledCards = 0 then (s\<lparr>error := cards_error\<rparr>, [])
        else case env_key of
          None \<Rightarrow> (s\<lparr>error := apiKey_error\<rparr>, [])
        | Some key \<Rightarrow>
            if \<not> truthy key then (s\<lparr>error := apiKey_error\<rparr>, [])
            else (s\<lparr>isLoading := True, error := []\<rparr>,
                  [create_request key (prompt (question s) filledCards)]))"

text \<open>
  What the service answers: the promise is rejected with some error, or resolved with
  a completion. \<open>completion.choices[0]?.message?.content\<close> reads the content of the first
  choice; a missing choice, a missing message and a \<open>null\<close> content all give a falsy
  value (\<open>None\<close>).
\<close>

datatype completion_message = Message (message_content: "jsstring option")

datatype choice = Choice (message: "completion_message option")

datatype completion = Completion (choices: "choice list")

datatype reply = Resolved completion | Rejected jsstring

definition first_content :: "completion \<Rightarrow> jsstring option" where
  "first_content c =
     (case choices c of
        [] \<Rightarrow> None
      | ch # _ \<Rightarrow> (case message ch of None \<Rightarrow> None | Some m \<Rightarrow> message_content m))"

definition readingText :: "completion \<Rightarrow> jsstring" where
  "readingText c =
     (case first_content c of
        None \<Rightarrow> fallback_reading
      | Some t \<Rightarrow> if truthy t then t else fallback_reading)"

text \<open>
  \<open>generateReading_resume\<close> is the rest of the function, run when the promise settles
  (lines 97 to 104), on the state of that moment. It gives the new state and the lines
  written with \<open>console.error\<close>.
\<close>

definition generateReading_resume :: "reply \<Rightarrow> state \<Rightarrow> state \<times> (jsstring \<times> jsstring) list" where
  "generateReading_resume r s =
     (case r of
        Resolved c \<Rightarrow> (s\<lparr>reading := readingText c, isLoading := False\<rparr>, [])
      | Rejected err \<Rightarrow>
          (s\<lparr>error := failed_error, isLoading := False\<rparr>,
           [(ascii ''Error generating reading:'', err)]))"

section \<open>The component as a transition system\<close>

text \<open>
  What can happen to the mounted component: the user types a question (line 132),
  clicks one of the ten number buttons (lines 145 to 148), types into one of the card
  inputs that are shown, one for each index of \<open>cardNames\<close> (lines 165 to 173), clicks
  the submit button, which is disabled while \<open>isLoading\<close> holds (lines 190 to 192), or
  an outstanding request settles.
\<close>

datatype event =
    TypeQuestion jsstring
  | ClickNumber int
  | TypeCardName nat jsstring
  | ClickSubmit
  | Settle reply

record world =
  ui :: state
  outstanding :: "request list"
  console :: "(jsstring \<times> jsstring) list"

definition mounted :: world where
  "mounted = \<lparr>ui = initial, outstanding = [], console = []\<rparr>"

definition step :: "jsstring option \<Rightarrow> event \<Rightarrow> world \<Rightarrow> world option" where
  "step env_key e w =
     (case e of
        TypeQuestion t \<Rightarrow> Some (w\<lparr>ui := (ui w)\<lparr>question := t\<rparr>\<rparr>)
      | ClickNumber num \<Rightarrow>
          if 1 \<le> num \<and> num \<le> 10 then
            (case handleNumCardsChange num (ui w) of
               Inl _ \<Rightarrow> None
             | Inr s \<Rightarrow> Some (w\<lparr>ui := s\<rparr>))
          else None
      | TypeCardName index name \<Rightarrow>
          if index < length (cardNames (ui w)) then
            (case handleCardNameChange index name (ui w) of
               None \<Rightarrow> None
             | Some s \<Rightarrow> Some (w\<lparr>ui := s\<rparr>))
          else None
      | ClickSubmit \<Rightarrow>
          if isLoading (ui w) then None
          else (case generateReading env_key (ui w) of
                  (s, reqs) \<Rightarrow> Some (w\<lparr>ui := s, outstanding := outstanding w @ reqs\<rparr>))
      | Settle r \<Rightarrow>
          (case outstanding w of
             [] \<Rightarrow> None
           | _ # rest \<Rightarrow>
               (case generateReading_resume r (ui w) of
                  (s, lines) \<Rightarrow>
                    Some (w\<lparr>ui := s, outstanding := rest, console := console w @ lines\<rparr>))))"

fun run :: "jsstring option \<Rightarrow> event list \<Rightarrow> world \<Rightarrow> world option" where
  "run env_key [] w = Some w"
| "run env_key (e # es) w =
     (case step env_key e w of None \<Rightarrow> None | Some w' \<Rightarrow> run env_key es w')"

section \<open>Invariants of the transition system\<close>

text \<open>
  Either the component is idle, with no request outstanding, or it is loading, with
  exactly one request outstanding and no error message shown.
\<close>

definition idle_or_waiting :: "world \<Rightarrow> bool" where
  "idle_or_waiting w \<longleftrightarrow>
     (if isLoading (ui w) then length (outstanding w) = 1 \<and> error (ui w) = []
      else outstanding w = [])"

text \<open>The length of the card-name sequence is the card count.\<close>

definition lengths_agree :: "state \<Rightarrow> bool" where
  "lengths_agree s \<longleftrightarrow> int (length (cardNames s)) = numCards s"

text \<open>
  The number that a string of decimal digits denotes, to read back what \<open>decimal\<close>
  wrote.
\<close>

definition decimal_value :: "jsstring \<Rightarrow> nat" where
  "decimal_value ds = foldl (\<lambda>acc d. 10 * acc + (unat d - 48)) 0 ds"

section \<open>Facts about the strings and the messages\<close>

lemma unat_code_unit: "m < 65536 \<Longrightarrow> unat (of_nat m :: jschar) = m"
  by (simp only: unat_of_nat) simp

lemma unat_digit: "d < 10 \<Longrightarrow> unat (of_nat (48 + d) :: jschar) = 48 + d"
proof -
  assume "d < 10"
  then have "48 + d < 65536" by linarith
  then show ?thesis by (rule unat_code_unit)
qed

lemma decimal_small: "n < 10 \<Longrightarrow> decimal n = [of_nat (48 + n)]"
  by (subst decimal.simps) (simp del: decimal.simps)

lemma decimal_large: "\<not> n < 10 \<Longrightarrow> decimal n = decimal (n div 10) @ [of_nat (48 + n mod 10)]"
  by (subst decimal.simps) (simp del: decimal.simps)

lemma digit_range: "d < 10 \<Longrightarrow> 48 \<le> (of_nat (48 + d) :: jschar) \<and> (of_nat (48 + d) :: jschar) \<le> 57"
  by (simp only: word_le_nat_alt unat_digit) simp

lemma decimal_digits: "c \<in> set (decimal n) \<Longrightarrow> 48 \<le> c \<and> c \<le> 57"
proof (induction n rule: decimal.induct)
  case (1 n)
  show ?case
  proof (cases "n < 10")
    case True
    note eq = decimal_small [OF True]
    from "1.prems" have "c = of_nat (48 + n)"
      unfolding eq by simp
    with digit_range [OF True] show ?thesis
      by (simp only:)
  next
    case False
    note eq = decimal_large [OF False]
    from "1.prems" have "c \<in> set (decimal (n div 10)) \<or> c = of_nat (48 + n mod 10)"
      unfolding eq by (auto simp del: decimal.simps of_nat_add)
    then show ?thesis
    proof
      assume "c \<in> set (decimal (n div 10))"
      with False show ?thesis
        by (rule "1.IH")
    next
      have "n mod 10 < 10"
        by simp
      from digit_range [OF this]
      have "48 \<le> (of_nat (48 + n mod 10) :: jschar) \<and> (of_nat (48 + n mod 10) :: jschar) \<le> 57" .
      moreover assume "c = of_nat (48 + n mod 10)"
      ultimately show ?thesis
        by (simp only:)
    qed
  qed
qed

lemma decimal_value_snoc: "decimal_value (ds @ [d]) = 10 * decimal_value ds + (unat d - 48)"
  by (simp add: decimal_value_def)

lemma decimal_value_decimal: "decimal_value (decimal n) = n"
proof (induction n rule: decimal.induct)
  case (1 n)
  show ?case
  proof (cases "n < 10")
    case True
    have "decimal_value [of_nat (48 + n) :: jschar] = unat (of_nat (48 + n) :: jschar) - 48"
      using decimal_value_snoc [of "[]" "of_nat (48 + n)"]
      by (simp add: decimal_value_def del: of_nat_add)
    also have "\<dots> = n"
      unfolding unat_digit [OF True] by simp
    finally show ?thesis
      unfolding decimal_small [OF True] .
  next
    case False
    have d: "n mod 10 < 10"
      by simp
    have "decimal_value (decimal (n div 10) @ [of_nat (48 + n mod 10)])
        = 10 * decimal_value (decimal (n div 10)) + (unat (of_nat (48 + n mod 10) :: jschar) - 48)"
      by (rule decimal_value_snoc)
    also have "\<dots> = 10 * (n div 10) + n mod 10"
      unfolding "1.IH" [OF False] unat_digit [OF d] by simp
    also have "\<dots> = n"
      by simp
    finally show ?thesis
      unfolding decimal_large [OF False] .
  qed
qed

lemma decimal_nonempty: "decimal n \<noteq> []"
proof (cases "n < 10")
  case True
  show ?thesis
    unfolding decimal_small [OF True] by simp
next
  case False
  show ?thesis
    unfolding decimal_large [OF False] by simp
qed

lemma digit_not_zero: "0 < d \<Longrightarrow> d < 10 \<Longrightarrow> (of_nat (48 + d) :: jschar) \<noteq> 48"
proof
  assume "0 < d" and "d < 10" and "(of_nat (48 + d) :: jschar) = 48"
  then have "unat (of_nat (48 + d) :: jschar) = unat (48 :: jschar)"
    by (simp only:)
  with \<open>d < 10\<close> have "48 + d = 48"
    by (simp only: unat_digit) simp
  with \<open>0 < d\<close> show False
    by simp
qed

lemma decimal_no_leading_zero: "0 < n \<Longrightarrow> hd (decimal n) \<noteq> 48"
proof (induction n rule: decimal.induct)
  case (1 n)
  show ?case
  proof (cases "n < 10")
    case True
    from digit_not_zero [OF "1.prems" True] show ?thesis
      unfolding decimal_small [OF True] by (simp del: of_nat_add)
  next
    case False
    then have "0 < n div 10"
      by simp
    with False have "hd (decimal (n div 10)) \<noteq> 48"
      by (rule "1.IH")
    with decimal_nonempty [of "n div 10"] show ?thesis
      unfolding decimal_large [OF False] by (simp del: decimal.simps)
  qed
qed

lemma join_first_then_rest: "join sep (x # xs) = x @ concat (map (\<lambda>y. sep @ y) xs)"
  by (induction xs arbitrary: x) simp_all

lemma msgs_distinct: "distinct [question_error, cards_error, apiKey_error, failed_error, fallback_reading]"
  by (simp add: question_error_def cards_error_def apiKey_error_def failed_error_def fallback_reading_def ascii_def)

lemma msgs_nonempty: "question_error \<noteq> []" "cards_error \<noteq> []" "apiKey_error \<noteq> []" "failed_error \<noteq> []" "fallback_reading \<noteq> []"
  by (simp_all add: question_error_def cards_error_def apiKey_error_def failed_error_def fallback_reading_def ascii_def)

lemma filled_empty: "filled names = [] \<longleftrightarrow> (\<forall>name \<in> set names. trim name = [])"
  by (simp add: filled_def truthy_def filter_empty_conv)

lemma filled_eq: "filled names = filter (\<lambda>name. trim name \<noteq> []) names"
  by (simp add: filled_def truthy_def)

lemma gen_question: "trim (question s) = [] \<Longrightarrow> generateReading k s = (s\<lparr>error := question_error\<rparr>, [])"
  by (simp add: generateReading_def truthy_def)

lemma gen_cards: "trim (question s) \<noteq> [] \<Longrightarrow> \<forall>name \<in> set (cardNames s). trim name = [] \<Longrightarrow>
   generateReading k s = (s\<lparr>error := cards_error\<rparr>, [])"
  by (simp add: generateReading_def truthy_def filled_empty Let_def)

lemma gen_key: "trim (question s) \<noteq> [] \<Longrightarrow> \<exists>name \<in> set (cardNames s). trim name \<noteq> [] \<Longrightarrow>
   k = None \<or> k = Some [] \<Longrightarrow>
   generateReading k s = (s\<lparr>error := apiKey_error\<rparr>, [])"
  by (auto simp add: generateReading_def truthy_def filled_empty Let_def)

lemma gen_request: "trim (question s) \<noteq> [] \<Longrightarrow> \<exists>name \<in> set (cardNames s). trim name \<noteq> [] \<Longrightarrow>
   key \<noteq> [] \<Longrightarrow>
   generateReading (Some key) s = (s\<lparr>isLoading := True, error := []\<rparr>,
      [create_request key (prompt (question s) (filled (cardNames s)))])"
  by (auto simp add: generateReading_def truthy_def filled_empty Let_def)

lemma cardLines_nth: "cardLines fc = map (\<lambda>i. decimal (i + 1) @ ascii ''. '' @ fc ! i) [0..<length fc]"
  by (rule nth_equalityI) (simp_all add: cardLines_def cardLine_def nth_enumerate_eq)

section \<open>Facts about \<open>generateReading\<close> and the runs\<close>


lemma run_invariant:
  assumes init: "P w"
    and pres: "\<And>e v v'. P v \<Longrightarrow> step k e v = Some v' \<Longrightarrow> P v'"
    and run: "run k es w = Some w'"
  shows "P w'"
  using init run
proof (induction es arbitrary: w)
  case Nil
  then show ?case by simp
next
  case (Cons e es)
  from Cons.prems(2) obtain v where v: "step k e w = Some v" and r: "run k es v = Some w'"
    by (auto split: option.splits)
  from pres [OF Cons.prems(1) v] have "P v" .
  from Cons.IH [OF this r] show ?case .
qed

lemma resume_isLoading: "isLoading (fst (generateReading_resume r s)) = False"
  by (cases r) (simp_all add: generateReading_resume_def)

lemma gen_cases:
  "generateReading k s = (s\<lparr>error := question_error\<rparr>, [])
   \<or> generateReading k s = (s\<lparr>error := cards_error\<rparr>, [])
   \<or> generateReading k s = (s\<lparr>error := apiKey_error\<rparr>, [])
   \<or> (\<exists>req. generateReading k s = (s\<lparr>isLoading := True, error := []\<rparr>, [req]))"
  by (auto simp add: generateReading_def Let_def split: option.splits)

lemma idle_or_waiting_step:
  assumes "idle_or_waiting w" and "step k e w = Some w'"
  shows "idle_or_waiting w'"
proof (cases e)
  case (TypeQuestion t)
  with assms show ?thesis by (auto simp: step_def idle_or_waiting_def)
next
  case (ClickNumber num)
  with assms show ?thesis
    by (auto simp: step_def idle_or_waiting_def handleNumCardsChange_def split: if_splits)
next
  case (TypeCardName index name)
  with assms show ?thesis
    by (auto simp: step_def idle_or_waiting_def handleCardNameChange_def split: if_splits)
next
  case ClickSubmit
  with assms have idle: "\<not> isLoading (ui w)" "outstanding w = []"
    and w': "w' = w\<lparr>ui := fst (generateReading k (ui w)),
                     outstanding := outstanding w @ snd (generateReading k (ui w))\<rparr>"
    by (auto simp: step_def idle_or_waiting_def split: if_splits prod.splits)
  from gen_cases [of k "ui w"] idle w' show ?thesis
    by (auto simp: idle_or_waiting_def)
next
  case (Settle r)
  with assms obtain req where out: "outstanding w = [req]" and load: "isLoading (ui w)"
    by (cases "outstanding w") (auto simp: step_def idle_or_waiting_def split: if_splits)
  with assms Settle have "w' = w\<lparr>ui := fst (generateReading_resume r (ui w)), outstanding := [],
      console := console w @ snd (generateReading_resume r (ui w))\<rparr>"
    by (auto simp: step_def split: prod.splits)
  then show ?thesis by (simp add: idle_or_waiting_def resume_isLoading)
qed

lemma idle_or_waiting_mounted: "idle_or_waiting mounted"
  by (simp add: idle_or_waiting_def mounted_def initial_def)

lemma idle_or_waiting_run: "run k es mounted = Some w \<Longrightarrow> idle_or_waiting w"
  by (rule run_invariant [where P = idle_or_waiting and k = k and w = mounted and es = es])
     (auto intro: idle_or_waiting_mounted idle_or_waiting_step)



lemma gen_lengths: "cardNames (fst (generateReading k s)) = cardNames s \<and> numCards (fst (generateReading k s)) = numCards s"
  using gen_cases [of k s] by auto


lemma resume_lengths: "cardNames (fst (generateReading_resume r s)) = cardNames s \<and> numCards (fst (generateReading_resume r s)) = numCards s"
  by (cases r) (simp_all add: generateReading_resume_def)

lemma num_lengths: "0 \<le> n \<Longrightarrow> handleNumCardsChange n s = Inr s' \<Longrightarrow> lengths_agree s'"
  by (auto simp add: handleNumCardsChange_def lengths_agree_def split: if_splits)

lemma name_lengths:
  "lengths_agree s \<Longrightarrow> i < length (cardNames s) \<Longrightarrow> handleCardNameChange i name s = Some s' \<Longrightarrow>
   lengths_agree s'"
  by (auto simp add: handleCardNameChange_def lengths_agree_def split: if_splits)

lemma lengths_agree_step:
  assumes "lengths_agree (ui w)" and "step k e w = Some w'"
  shows "lengths_agree (ui w')"
proof (cases e)
  case (TypeQuestion t)
  with assms show ?thesis by (auto simp: step_def lengths_agree_def)
next
  case (ClickNumber num)
  with assms num_lengths [of num "ui w"] show ?thesis
    by (auto simp: step_def split: if_splits sum.splits)
next
  case (TypeCardName index name)
  with assms show ?thesis
    by (auto simp: step_def split: option.splits if_splits intro: name_lengths)
next
  case ClickSubmit
  with assms have "ui w' = fst (generateReading k (ui w))"
    by (auto simp: step_def split: if_splits prod.splits)
  with assms(1) gen_lengths [of k "ui w"] show ?thesis
    by (simp add: lengths_agree_def)
next
  case (Settle r)
  with assms have "ui w' = fst (generateReading_resume r (ui w))"
    by (auto simp: step_def split: list.splits prod.splits)
  with assms(1) resume_lengths [of r "ui w"] show ?thesis
    by (simp add: lengths_agree_def)
qed

lemma lengths_agree_run:
  assumes "run k es mounted = Some w"
  shows "lengths_agree (ui w)"
proof (rule run_invariant [where P = "\<lambda>v. lengths_agree (ui v)", OF _ _ assms])
  show "lengths_agree (ui mounted)"
    by (simp add: mounted_def initial_def lengths_agree_def)
  show "\<And>e v v'. lengths_agree (ui v) \<Longrightarrow> step k e v = Some v' \<Longrightarrow> lengths_agree (ui v')"
    by (rule lengths_agree_step)
qed






lemma trim_examples:
  "trim (ascii ''Why?'') = ascii ''Why?''" "trim (ascii ''Sun'') = ascii ''Sun''" "trim [] = []"
  by (simp_all add: trim_def isWhiteSpace_def ascii_def)

lemma ascii_examples:
  "ascii ''Why?'' \<noteq> []" "ascii ''Sun'' \<noteq> []" "ascii ''sk'' \<noteq> []" "ascii ''Joy.'' \<noteq> []"
  by (simp_all add: ascii_def)

section \<open>The claims\<close>

text \<open>
  C1. From every state whose question is not empty after trimming and which has a card
  name that is not empty after trimming, with an API key configured (a non-empty
  string), \<open>generateReading\<close> sets the loading flag, clears the error and issues exactly
  one request. Its user message is the template with the question, the count of the
  card names that are not empty after trimming, and those names in their order in the
  sequence: the first on a line numbered 1, each later one after a line break,
  numbered in turn. The numbers are written in decimal digits without a leading zero.
\<close>

theorem submit_issues_one_request:
  assumes "trim (question s) \<noteq> []"
    and "\<exists>name \<in> set (cardNames s). trim name \<noteq> []"
    and "key \<noteq> []"
    and "fc = filter (\<lambda>name. trim name \<noteq> []) (cardNames s)"
  shows "generateReading (Some key) s =
           (s\<lparr>isLoading := True, error := []\<rparr>,
            [\<lparr>apiKey = key, model = ascii ''gpt-4'',
              messages =
                [\<lparr>role = System, content = system_content\<rparr>,
                 \<lparr>role = User,
                  content =
                    prompt_intro @ question s @ prompt_drawn @ decimal (length fc) @ prompt_cards
                    @ decimal 1 @ ascii ''. '' @ fc ! 0
                    @ concat (map (\<lambda>i. ascii ''\<newline>'' @ decimal (i + 1) @ ascii ''. '' @ fc ! i)
                                [1 ..< length fc])
                    @ prompt_outro\<rparr>],
              max_tokens = 2000, temperature = 7 / 10\<rparr>])
         \<and> (\<forall>n. (\<forall>d \<in> set (decimal n). 48 \<le> d \<and> d \<le> 57)
                \<and> decimal_value (decimal n) = n
                \<and> (decimal n = [48] \<or> hd (decimal n) \<noteq> 48))"
proof (intro conjI allI ballI)
  let ?nl = "ascii ''\<newline>''"
  let ?line = "\<lambda>i. decimal (i + 1) @ ascii ''. '' @ fc ! i"
  from assms(2,4) have "fc \<noteq> []"
    by (simp add: filter_empty_conv)
  then have upt: "[0 ..< length fc] = 0 # [1 ..< length fc]"
    by (simp add: upt_conv_Cons)
  have "join ?nl (cardLines fc) = join ?nl (?line 0 # map ?line [1 ..< length fc])"
    unfolding cardLines_nth upt by (simp del: decimal.simps)
  also have "\<dots> = ?line 0 @ concat (map (\<lambda>i. ?nl @ ?line i) [1 ..< length fc])"
    unfolding join_first_then_rest by (simp add: comp_def del: decimal.simps)
  finally have cards: "join ?nl (cardLines fc)
      = decimal 1 @ ascii ''. '' @ fc ! 0
        @ concat (map (\<lambda>i. ?nl @ decimal (i + 1) @ ascii ''. '' @ fc ! i) [1 ..< length fc])"
    by (simp del: decimal.simps)
  from assms(4) have fc: "filled (cardNames s) = fc"
    by (simp add: filled_eq)
  show "generateReading (Some key) s =
           (s\<lparr>isLoading := True, error := []\<rparr>,
            [\<lparr>apiKey = key, model = ascii ''gpt-4'',
              messages =
                [\<lparr>role = System, content = system_content\<rparr>,
                 \<lparr>role = User,
                  content =
                    prompt_intro @ question s @ prompt_drawn @ decimal (length fc) @ prompt_cards
                    @ decimal 1 @ ascii ''. '' @ fc ! 0
                    @ concat (map (\<lambda>i. ascii ''\<newline>'' @ decimal (i + 1) @ ascii ''. '' @ fc ! i)
                                [1 ..< length fc])
                    @ prompt_outro\<rparr>],
              max_tokens = 2000, temperature = 7 / 10\<rparr>])"
    unfolding gen_request [OF assms(1-3)] fc create_request_def prompt_def cards
    by (simp del: decimal.simps)
next
  fix n d
  assume "d \<in> set (decimal n)"
  then show "48 \<le> d" and "d \<le> 57"
    using decimal_digits by blast+
next
  fix n
  show "decimal_value (decimal n) = n"
    by (rule decimal_value_decimal)
next
  fix n
  show "decimal n = [48] \<or> hd (decimal n) \<noteq> 48"
  proof (cases "n = 0")
    case True
    then show ?thesis
      by simp
  next
    case False
    then have "hd (decimal n) \<noteq> 48"
      by (simp add: decimal_no_leading_zero del: decimal.simps)
    then show ?thesis ..
  qed
qed

theorem submit_issues_one_request_witness:
  "trim (ascii ''Why?'') \<noteq> []
   \<and> trim (ascii ''Sun'') \<noteq> [] \<and> trim (ascii '' '') = [] \<and> trim (ascii ''Moon'') \<noteq> []
   \<and> trim (ascii '' Star'') \<noteq> []
   \<and> ascii ''sk'' \<noteq> []
   \<and> generateReading (Some (ascii ''sk''))
        \<lparr>question = ascii ''Why?'', numCards = 4,
         cardNames = [ascii ''Sun'', ascii '' '', ascii ''Moon'', ascii '' Star''],
         reading = [], isLoading = False, error = ascii ''old''\<rparr>
     = (\<lparr>question = ascii ''Why?'', numCards = 4,
         cardNames = [ascii ''Sun'', ascii '' '', ascii ''Moon'', ascii '' Star''],
         reading = [], isLoading = True, error = []\<rparr>,
        [\<lparr>apiKey = ascii ''sk'', model = ascii ''gpt-4'',
          messages =
            [\<lparr>role = System, content = system_content\<rparr>,
             \<lparr>role = User,
              content =
                prompt_intro @ ascii ''Why?'' @ prompt_drawn @ ascii ''3'' @ prompt_cards
                @ ascii ''1. Sun\<newline>2. Moon\<newline>3.  Star'' @ prompt_outro\<rparr>],
          max_tokens = 2000, temperature = 7 / 10\<rparr>])
   \<and> decimal 12 = ascii ''12'' \<and> decimal_value (ascii ''12'') = 12"
proof -
  let ?s = "\<lparr>question = ascii ''Why?'', numCards = 4,
         cardNames = [ascii ''Sun'', ascii '' '', ascii ''Moon'', ascii '' Star''],
         reading = [], isLoading = False, error = ascii ''old''\<rparr>"
  have q: "trim (question ?s) \<noteq> []"
    by (simp add: trim_def isWhiteSpace_def ascii_def)
  have sun: "trim (ascii ''Sun'') = ascii ''Sun''" and blank: "trim (ascii '' '') = []"
    and moon: "trim (ascii ''Moon'') = ascii ''Moon''"
    and star: "trim (ascii '' Star'') = ascii ''Star''"
    by (simp_all add: trim_def isWhiteSpace_def ascii_def)
  have ne: "ascii ''Sun'' \<noteq> []" "ascii ''Moon'' \<noteq> []" "ascii ''Star'' \<noteq> []"
    by (simp_all add: ascii_def)
  have c: "\<exists>name \<in> set (cardNames ?s). trim name \<noteq> []"
    by (simp add: sun ne)
  have k: "ascii ''sk'' \<noteq> []"
    by (simp add: ascii_def)
  have fc: "[ascii ''Sun'', ascii ''Moon'', ascii '' Star'']
      = filter (\<lambda>name. trim name \<noteq> []) (cardNames ?s)"
    by (simp add: sun blank moon star ne)
  have upt: "[1 ..< 3] = [1, 2]"
    by (simp add: upt_rec)
  have twelve: "decimal 12 = ascii ''12''"
    by (simp add: ascii_def)
  note claim = submit_issues_one_request [OF q c k fc]
  from claim have "decimal_value (decimal 12) = 12"
    by blast
  then have v: "decimal_value (ascii ''12'') = 12"
    by (simp only: twelve)
  from claim have "generateReading (Some (ascii ''sk'')) ?s =
           (?s\<lparr>isLoading := True, error := []\<rparr>,
            [\<lparr>apiKey = ascii ''sk'', model = ascii ''gpt-4'',
              messages =
                [\<lparr>role = System, content = system_content\<rparr>,
                 \<lparr>role = User,
                  content =
                    prompt_intro @ question ?s @ prompt_drawn
                    @ decimal (length [ascii ''Sun'', ascii ''Moon'', ascii '' Star'']) @ prompt_cards
                    @ decimal 1 @ ascii ''. '' @ [ascii ''Sun'', ascii ''Moon'', ascii '' Star''] ! 0
                    @ concat (map (\<lambda>i. ascii ''\<newline>'' @ decimal (i + 1) @ ascii ''. ''
                                     @ [ascii ''Sun'', ascii ''Moon'', ascii '' Star''] ! i)
                                [1 ..< length [ascii ''Sun'', ascii ''Moon'', ascii '' Star'']])
                    @ prompt_outro\<rparr>],
              max_tokens = 2000, temperature = 7 / 10\<rparr>])"
    by (rule conjunct1)
  with q k sun blank moon star ne twelve v show ?thesis
    by (simp add: upt) (simp add: ascii_def)
qed

text \<open>
  C2. When the promise resolves with a completion whose first choice carries a
  non-empty text \<open>T\<close>, the stored reading is \<open>T\<close>, whatever choices follow. When the
  first choice carries the empty text, a \<open>null\<close> content or no message, or when there
  is no choice at all, the stored reading is the fixed placeholder.
\<close>

theorem reading_is_response_text_or_fallback:
  "(T \<noteq> [] \<longrightarrow>
      reading (fst (generateReading_resume
        (Resolved (Completion (Choice (Some (Message (Some T))) # others))) s)) = T)
   \<and> reading (fst (generateReading_resume
        (Resolved (Completion (Choice (Some (Message (Some []))) # others))) s)) = fallback_reading
   \<and> reading (fst (generateReading_resume
        (Resolved (Completion (Choice (Some (Message None)) # others))) s)) = fallback_reading
   \<and> reading (fst (generateReading_resume
        (Resolved (Completion (Choice None # others))) s)) = fallback_reading
   \<and> reading (fst (generateReading_resume (Resolved (Completion [])) s)) = fallback_reading
   \<and> fallback_reading = ascii ''Unable to generate reading. Please try again.''"
  by (simp add: generateReading_resume_def readingText_def first_content_def truthy_def
      fallback_reading_def)

theorem reading_is_response_text_or_fallback_witness:
  "ascii ''The Sun shines.'' \<noteq> []
   \<and> reading (fst (generateReading_resume
         (Resolved (Completion [Choice (Some (Message (Some (ascii ''The Sun shines.'')))),
                                Choice None]))
         (initial\<lparr>isLoading := True\<rparr>))) = ascii ''The Sun shines.''
   \<and> reading (fst (generateReading_resume
         (Resolved (Completion [Choice (Some (Message (Some []))),
                                Choice (Some (Message (Some (ascii ''The Sun shines.''))))]))
         (initial\<lparr>isLoading := True\<rparr>))) = ascii ''Unable to generate reading. Please try again.''
   \<and> reading (fst (generateReading_resume
         (Resolved (Completion [Choice (Some (Message None))]))
         (initial\<lparr>isLoading := True\<rparr>))) = ascii ''Unable to generate reading. Please try again.''"
proof -
  let ?s = "initial\<lparr>isLoading := True\<rparr>"
  let ?T = "ascii ''The Sun shines.''"
  have n: "?T \<noteq> []"
    by (simp add: ascii_def)
  note a = reading_is_response_text_or_fallback [of ?T "[Choice None]" ?s]
  note b = reading_is_response_text_or_fallback [of ?T "[Choice (Some (Message (Some ?T)))]" ?s]
  note c = reading_is_response_text_or_fallback [of ?T "[]" ?s]
  from a n have "reading (fst (generateReading_resume
         (Resolved (Completion [Choice (Some (Message (Some ?T))), Choice None])) ?s)) = ?T"
    by blast
  moreover from b have "reading (fst (generateReading_resume
         (Resolved (Completion [Choice (Some (Message (Some []))),
                                Choice (Some (Message (Some ?T)))])) ?s))
      = ascii ''Unable to generate reading. Please try again.''"
    by (simp only:)
  moreover from c have "reading (fst (generateReading_resume
         (Resolved (Completion [Choice (Some (Message None))])) ?s))
      = ascii ''Unable to generate reading. Please try again.''"
    by (simp only:)
  ultimately show ?thesis
    using n by (simp only:) simp
qed

text \<open>
  C3. For every \<open>n\<close> from 1 to 10 and every state, \<open>handleNumCardsChange n\<close> succeeds
  and leaves a card-name sequence of exactly \<open>n\<close> elements: below the old length each
  index holds its prior entry, and from the old length on the empty string.
\<close>

theorem setCardCount_resizes:
  assumes "1 \<le> n" and "n \<le> 10"
  shows "\<exists>s'. handleNumCardsChange n s = Inr s'
           \<and> numCards s' = n
           \<and> int (length (cardNames s')) = n
           \<and> (\<forall>i < min (nat n) (length (cardNames s)). cardNames s' ! i = cardNames s ! i)
           \<and> (\<forall>i. length (cardNames s) \<le> i \<and> i < nat n \<longrightarrow> cardNames s' ! i = [])"
  using assms by (auto simp add: handleNumCardsChange_def truthy_def)

theorem setCardCount_resizes_witness:
  "(1::int) \<le> 3 \<and> (3::int) \<le> 10
   \<and> (\<exists>s'. handleNumCardsChange 3
               (initial\<lparr>numCards := 2, cardNames := [ascii ''Sun'', ascii ''Moon'']\<rparr>) = Inr s'
          \<and> numCards s' = 3
          \<and> cardNames s' = [ascii ''Sun'', ascii ''Moon'', []])"
proof -
  let ?s = "initial\<lparr>numCards := 2, cardNames := [ascii ''Sun'', ascii ''Moon'']\<rparr>"
  have lo: "(1::int) \<le> 3" and hi: "(3::int) \<le> 10"
    by simp_all
  from setCardCount_resizes [OF lo hi, of ?s] obtain s3 where
    s3: "handleNumCardsChange 3 ?s = Inr s3" "numCards s3 = 3" "length (cardNames s3) = 3"
      and old: "\<forall>i < 2. cardNames s3 ! i = [ascii ''Sun'', ascii ''Moon''] ! i"
      and new: "\<forall>i. 2 \<le> i \<and> i < 3 \<longrightarrow> cardNames s3 ! i = []"
    by auto
  from old have "cardNames s3 ! 0 = ascii ''Sun''" "cardNames s3 ! 1 = ascii ''Moon''"
    by simp_all
  moreover from new have "cardNames s3 ! 2 = []"
    by simp
  moreover from s3(3) obtain a b c where "cardNames s3 = [a, b, c]"
    by (auto simp add: numeral_3_eq_3 length_Suc_conv)
  ultimately have "cardNames s3 = [ascii ''Sun'', ascii ''Moon'', []]"
    by simp
  with s3 lo hi show ?thesis
    by simp
qed

text \<open>
  C4. The length of the card-name sequence is the card count: in the initial state,
  after \<open>handleNumCardsChange n\<close> with \<open>n\<close> from 1 to 10, after \<open>handleCardNameChange\<close>
  at a valid index, after \<open>generateReading\<close> and after its completion, and so in every
  state the mounted component can reach.
\<close>

theorem card_names_length_is_card_count:
  "lengths_agree initial
   \<and> (\<forall>n s. 1 \<le> n \<and> n \<le> 10 \<longrightarrow>
         (\<exists>s'. handleNumCardsChange n s = Inr s' \<and> lengths_agree s'))
   \<and> (\<forall>i name s. lengths_agree s \<and> i < length (cardNames s) \<longrightarrow>
         (\<exists>s'. handleCardNameChange i name s = Some s' \<and> lengths_agree s'))
   \<and> (\<forall>k s. lengths_agree s \<longrightarrow> lengths_agree (fst (generateReading k s)))
   \<and> (\<forall>r s. lengths_agree s \<longrightarrow> lengths_agree (fst (generateReading_resume r s)))
   \<and> (\<forall>k es w. run k es mounted = Some w \<longrightarrow> lengths_agree (ui w))"
proof (intro conjI allI impI)
  show "lengths_agree initial"
    by (simp add: initial_def lengths_agree_def)
next
  fix n :: int and s
  assume "1 \<le> n \<and> n \<le> 10"
  then show "\<exists>s'. handleNumCardsChange n s = Inr s' \<and> lengths_agree s'"
    by (simp add: handleNumCardsChange_def lengths_agree_def)
next
  fix i name s
  assume "lengths_agree s \<and> i < length (cardNames s)"
  then show "\<exists>s'. handleCardNameChange i name s = Some s' \<and> lengths_agree s'"
    by (simp add: handleCardNameChange_def lengths_agree_def)
next
  fix k s
  assume "lengths_agree s"
  with gen_lengths [of k s] show "lengths_agree (fst (generateReading k s))"
    by (simp add: lengths_agree_def)
next
  fix r s
  assume "lengths_agree s"
  with resume_lengths [of r s] show "lengths_agree (fst (generateReading_resume r s))"
    by (simp add: lengths_agree_def)
next
  fix k es w
  assume "run k es mounted = Some w"
  then show "lengths_agree (ui w)"
    by (rule lengths_agree_run)
qed

theorem card_names_length_is_card_count_witness:
  "lengths_agree initial
   \<and> (1::int) \<le> 4 \<and> (4::int) \<le> 10
   \<and> (\<exists>s'. handleNumCardsChange 4 initial = Inr s' \<and> lengths_agree s')
   \<and> (0::nat) < length (cardNames initial)
   \<and> (\<exists>s'. handleCardNameChange 0 (ascii ''Sun'') initial = Some s' \<and> lengths_agree s')
   \<and> lengths_agree (fst (generateReading None initial))
   \<and> lengths_agree (fst (generateReading_resume (Rejected (ascii ''timeout'')) initial))
   \<and> run None [ClickNumber 4, TypeCardName 3 (ascii ''Sun''), ClickSubmit] mounted
       = Some \<lparr>ui = \<lparr>question = [], numCards = 4, cardNames = [[], [], [], ascii ''Sun''],
                      reading = [], isLoading = False, error = question_error\<rparr>,
                outstanding = [], console = []\<rparr>
   \<and> lengths_agree \<lparr>question = [], numCards = 4, cardNames = [[], [], [], ascii ''Sun''],
                      reading = [], isLoading = False, error = question_error\<rparr>"
proof -
  have init: "lengths_agree initial" and len: "(0::nat) < length (cardNames initial)"
    by (simp_all add: initial_def lengths_agree_def)
  have four: "[0 ..< 4] = [0, 1, 2, 3]"
    by (simp add: upt_rec)
  have r: "run None [ClickNumber 4, TypeCardName 3 (ascii ''Sun''), ClickSubmit] mounted
       = Some \<lparr>ui = \<lparr>question = [], numCards = 4, cardNames = [[], [], [], ascii ''Sun''],
                      reading = [], isLoading = False, error = question_error\<rparr>,
                outstanding = [], console = []\<rparr>"
    by (simp add: step_def mounted_def initial_def handleNumCardsChange_def
        handleCardNameChange_def generateReading_def truthy_def trim_def four)
  have b: "(1::int) \<le> 4 \<and> (4::int) \<le> 10"
    by simp
  note inv = card_names_length_is_card_count
  from inv b have n: "\<exists>s'. handleNumCardsChange 4 initial = Inr s' \<and> lengths_agree s'"
    by blast
  from inv init len
  have c: "\<exists>s'. handleCardNameChange 0 (ascii ''Sun'') initial = Some s' \<and> lengths_agree s'"
    by blast
  from inv init have g: "lengths_agree (fst (generateReading None initial))"
    by blast
  from inv init
  have h: "lengths_agree (fst (generateReading_resume (Rejected (ascii ''timeout'')) initial))"
    by blast
  from inv r
  have "lengths_agree (ui \<lparr>ui = \<lparr>question = [], numCards = 4, cardNames = [[], [], [], ascii ''Sun''],
                      reading = [], isLoading = False, error = question_error\<rparr>,
                outstanding = [], console = []\<rparr>)"
    by blast
  with init b n len c g h r show ?thesis
    by simp
qed

text \<open>
  C5. When the question is empty after trimming, or it is not but every card name is
  empty after trimming, \<open>generateReading\<close> only sets a validation message (for the
  question in the first case, for the cards in the second) and issues no request.
\<close>

theorem validation_error_without_request:
  assumes "trim (question s) = []
           \<or> (trim (question s) \<noteq> [] \<and> (\<forall>name \<in> set (cardNames s). trim name = []))"
  shows "generateReading k s =
           (s\<lparr>error := (if trim (question s) = [] then question_error else cards_error)\<rparr>, [])
         \<and> question_error \<noteq> [] \<and> cards_error \<noteq> []"
  using assms msgs_nonempty(1,2) by (auto simp add: gen_question gen_cards)

theorem validation_error_without_request_witness:
  "trim (ascii ''  '') = []
   \<and> generateReading (Some (ascii ''sk''))
        (initial\<lparr>question := ascii ''  '', cardNames := [ascii ''Sun'']\<rparr>)
      = (initial\<lparr>question := ascii ''  '', cardNames := [ascii ''Sun''], error := question_error\<rparr>, [])
   \<and> trim (ascii ''Why?'') \<noteq> []
   \<and> trim [] = [] \<and> trim (ascii '' '') = []
   \<and> generateReading (Some (ascii ''sk''))
        (initial\<lparr>question := ascii ''Why?'', numCards := 2, cardNames := [[], ascii '' '']\<rparr>)
      = (initial\<lparr>question := ascii ''Why?'', numCards := 2, cardNames := [[], ascii '' ''],
                  error := cards_error\<rparr>, [])"
proof -
  let ?a = "initial\<lparr>question := ascii ''  '', cardNames := [ascii ''Sun'']\<rparr>"
  let ?b = "initial\<lparr>question := ascii ''Why?'', numCards := 2, cardNames := [[], ascii '' '']\<rparr>"
  have qa: "trim (ascii ''  '') = []" and qb: "trim (ascii ''Why?'') \<noteq> []"
    and cb: "trim [] = [] \<and> trim (ascii '' '') = []"
    by (simp_all add: trim_def isWhiteSpace_def ascii_def)
  have ha: "trim (question ?a) = []
           \<or> (trim (question ?a) \<noteq> [] \<and> (\<forall>name \<in> set (cardNames ?a). trim name = []))"
    using qa by simp
  have hb: "trim (question ?b) = []
           \<or> (trim (question ?b) \<noteq> [] \<and> (\<forall>name \<in> set (cardNames ?b). trim name = []))"
    using qb cb by simp
  from validation_error_without_request [OF ha, of "Some (ascii ''sk'')"]
       validation_error_without_request [OF hb, of "Some (ascii ''sk'')"] qa qb cb
  show ?thesis by simp
qed

text \<open>
  C6. When the request fails, the completion sets the error to the generic failure
  message, clears the loading flag and leaves the reading as it was.
\<close>

theorem failed_request_sets_error:
  "error (fst (generateReading_resume (Rejected err) s)) = failed_error
   \<and> failed_error \<noteq> []
   \<and> isLoading (fst (generateReading_resume (Rejected err) s)) = False
   \<and> reading (fst (generateReading_resume (Rejected err) s)) = reading s"
  using msgs_nonempty(4) by (simp add: generateReading_resume_def)

theorem failed_request_sets_error_witness:
  "fst (generateReading_resume (Rejected (ascii ''429''))
          (initial\<lparr>reading := ascii ''Joy.'', isLoading := True\<rparr>))
   = initial\<lparr>reading := ascii ''Joy.'', error := failed_error\<rparr>
   \<and> error (fst (generateReading_resume (Rejected (ascii ''429''))
          (initial\<lparr>reading := ascii ''Joy.'', isLoading := True\<rparr>))) = failed_error
   \<and> reading (fst (generateReading_resume (Rejected (ascii ''429''))
          (initial\<lparr>reading := ascii ''Joy.'', isLoading := True\<rparr>))) = ascii ''Joy.''"
  using failed_request_sets_error
          [of "ascii ''429''" "initial\<lparr>reading := ascii ''Joy.'', isLoading := True\<rparr>"]
  by (simp add: generateReading_resume_def initial_def)

text \<open>
  C7. When the fields pass validation and the API key is absent (undefined or the
  empty string), \<open>generateReading\<close> only sets the configuration message and issues no
  request.
\<close>

theorem missing_key_error_without_request:
  assumes "trim (question s) \<noteq> []"
    and "\<exists>name \<in> set (cardNames s). trim name \<noteq> []"
    and "k = None \<or> k = Some []"
  shows "generateReading k s = (s\<lparr>error := apiKey_error\<rparr>, []) \<and> apiKey_error \<noteq> []"
  using assms msgs_nonempty(3) by (simp add: gen_key)

theorem missing_key_error_without_request_witness:
  "trim (ascii ''Why?'') \<noteq> []
   \<and> trim (ascii ''Sun'') \<noteq> []
   \<and> generateReading None (initial\<lparr>question := ascii ''Why?'', cardNames := [ascii ''Sun'']\<rparr>)
      = (initial\<lparr>question := ascii ''Why?'', cardNames := [ascii ''Sun''], error := apiKey_error\<rparr>, [])
   \<and> generateReading (Some []) (initial\<lparr>question := ascii ''Why?'', cardNames := [ascii ''Sun'']\<rparr>)
      = (initial\<lparr>question := ascii ''Why?'', cardNames := [ascii ''Sun''], error := apiKey_error\<rparr>, [])"
proof -
  let ?s = "initial\<lparr>question := ascii ''Why?'', cardNames := [ascii ''Sun'']\<rparr>"
  have q: "trim (ascii ''Why?'') \<noteq> []" and c: "trim (ascii ''Sun'') \<noteq> []"
    by (simp_all add: trim_def isWhiteSpace_def ascii_def)
  have hq: "trim (question ?s) \<noteq> []" and hc: "\<exists>name \<in> set (cardNames ?s). trim name \<noteq> []"
    using q c by simp_all
  have n: "(None :: jsstring option) = None \<or> None = Some []"
    and e: "Some ([] :: jsstring) = None \<or> Some ([] :: jsstring) = Some []"
    by simp_all
  from missing_key_error_without_request [OF hq hc n]
       missing_key_error_without_request [OF hq hc e] q c
  show ?thesis by simp
qed




text \<open>
  C9. The loading flag is false initially; a \<open>generateReading\<close> that issues no request
  leaves it as it was; one that issues a request issues exactly one and sets it; the
  completion clears it, on success and on failure. In every state the mounted
  component can reach, the flag is set exactly when a request is outstanding, and at
  most one is.
\<close>

theorem loading_only_while_outstanding:
  "isLoading initial = False
   \<and> (\<forall>k s. snd (generateReading k s) = [] \<longrightarrow>
         isLoading (fst (generateReading k s)) = isLoading s)
   \<and> (\<forall>k s. snd (generateReading k s) \<noteq> [] \<longrightarrow>
         isLoading (fst (generateReading k s)) = True \<and> length (snd (generateReading k s)) = 1)
   \<and> (\<forall>r s. isLoading (fst (generateReading_resume r s)) = False)
   \<and> (\<forall>k es w. run k es mounted = Some w \<longrightarrow>
         (isLoading (ui w) \<longleftrightarrow> outstanding w \<noteq> []) \<and> length (outstanding w) \<le> 1)"
proof (intro conjI allI impI)
  show "isLoading initial = False"
    by (simp add: initial_def)
next
  fix k s
  assume "snd (generateReading k s) = []"
  with gen_cases [of k s] show "isLoading (fst (generateReading k s)) = isLoading s"
    by auto
next
  fix k s
  assume "snd (generateReading k s) \<noteq> []"
  with gen_cases [of k s] show "isLoading (fst (generateReading k s)) = True"
    by auto
next
  fix k s
  assume "snd (generateReading k s) \<noteq> []"
  with gen_cases [of k s] show "length (snd (generateReading k s)) = 1"
    by auto
next
  fix r s
  show "isLoading (fst (generateReading_resume r s)) = False"
    by (rule resume_isLoading)
next
  fix k es w
  assume "run k es mounted = Some w"
  then have "idle_or_waiting w"
    by (rule idle_or_waiting_run)
  then show "isLoading (ui w) \<longleftrightarrow> outstanding w \<noteq> []"
    by (auto simp add: idle_or_waiting_def split: if_splits)
next
  fix k es w
  assume "run k es mounted = Some w"
  then have "idle_or_waiting w"
    by (rule idle_or_waiting_run)
  then show "length (outstanding w) \<le> 1"
    by (auto simp add: idle_or_waiting_def split: if_splits)
qed

theorem loading_only_while_outstanding_witness:
  "snd (generateReading None (initial\<lparr>question := ascii ''Why?'', cardNames := [ascii ''Sun'']\<rparr>)) = []
   \<and> isLoading (fst (generateReading None
        (initial\<lparr>question := ascii ''Why?'', cardNames := [ascii ''Sun'']\<rparr>))) = False
   \<and> snd (generateReading (Some (ascii ''sk''))
        (initial\<lparr>question := ascii ''Why?'', cardNames := [ascii ''Sun'']\<rparr>)) \<noteq> []
   \<and> isLoading (fst (generateReading (Some (ascii ''sk''))
        (initial\<lparr>question := ascii ''Why?'', cardNames := [ascii ''Sun'']\<rparr>))) = True
   \<and> run (Some (ascii ''sk''))
        [TypeQuestion (ascii ''Why?''), TypeCardName 0 (ascii ''Sun''), ClickSubmit] mounted
      = Some \<lparr>ui = \<lparr>question = ascii ''Why?'', numCards = 1, cardNames = [ascii ''Sun''],
                     reading = [], isLoading = True, error = []\<rparr>,
               outstanding = [create_request (ascii ''sk'') (prompt (ascii ''Why?'') [ascii ''Sun''])],
               console = []\<rparr>
   \<and> run (Some (ascii ''sk''))
        [TypeQuestion (ascii ''Why?''), TypeCardName 0 (ascii ''Sun''), ClickSubmit,
         Settle (Rejected (ascii ''429''))] mounted
      = Some \<lparr>ui = \<lparr>question = ascii ''Why?'', numCards = 1, cardNames = [ascii ''Sun''],
                     reading = [], isLoading = False, error = failed_error\<rparr>,
               outstanding = [],
               console = [(ascii ''Error generating reading:'', ascii ''429'')]\<rparr>"
proof -
  let ?s = "initial\<lparr>question := ascii ''Why?'', cardNames := [ascii ''Sun'']\<rparr>"
  let ?es = "[TypeQuestion (ascii ''Why?''), TypeCardName 0 (ascii ''Sun''), ClickSubmit]"
  let ?w1 = "\<lparr>ui = \<lparr>question = ascii ''Why?'', numCards = 1, cardNames = [ascii ''Sun''],
                     reading = [], isLoading = True, error = []\<rparr>,
               outstanding = [create_request (ascii ''sk'') (prompt (ascii ''Why?'') [ascii ''Sun''])],
               console = []\<rparr>"
  let ?w2 = "\<lparr>ui = \<lparr>question = ascii ''Why?'', numCards = 1, cardNames = [ascii ''Sun''],
                     reading = [], isLoading = False, error = failed_error\<rparr>,
               outstanding = [],
               console = [(ascii ''Error generating reading:'', ascii ''429'')]\<rparr>"
  note defs = step_def mounted_def initial_def handleCardNameChange_def generateReading_def
    generateReading_resume_def readingText_def first_content_def filled_def truthy_def Let_def
    trim_examples ascii_examples
  have g1: "snd (generateReading None ?s) = []"
    and g2: "snd (generateReading (Some (ascii ''sk'')) ?s) \<noteq> []"
    by (simp_all add: defs)
  have r1: "run (Some (ascii ''sk'')) ?es mounted = Some ?w1"
    by (simp add: defs)
  have r2: "run (Some (ascii ''sk'')) (?es @ [Settle (Rejected (ascii ''429''))]) mounted = Some ?w2"
    by (simp add: defs)
  note claim = loading_only_while_outstanding
  from claim g1 have "isLoading (fst (generateReading None ?s)) = isLoading ?s"
    by blast
  then have a: "isLoading (fst (generateReading None ?s)) = False"
    by (simp add: initial_def)
  from claim g2 have b: "isLoading (fst (generateReading (Some (ascii ''sk'')) ?s)) = True"
    by blast
  from claim r1 have "isLoading (ui ?w1) \<longleftrightarrow> outstanding ?w1 \<noteq> []"
    by blast
  moreover from claim r2 have "isLoading (ui ?w2) \<longleftrightarrow> outstanding ?w2 \<noteq> []"
    by blast
  ultimately show ?thesis
    using g1 g2 a b r1 r2 by simp
qed

text \<open>
  C10. \<open>generateReading\<close> reports the first check that fails, in the order question,
  card names, API key, whatever the later checks would say: an empty question gives the
  question message also when the API key is missing. The three messages differ.
\<close>

theorem first_failing_check_decides:
  "(trim (question s) = [] \<longrightarrow> generateReading k s = (s\<lparr>error := question_error\<rparr>, []))
   \<and> (trim (question s) \<noteq> [] \<and> (\<forall>name \<in> set (cardNames s). trim name = []) \<longrightarrow>
        generateReading k s = (s\<lparr>error := cards_error\<rparr>, []))
   \<and> (trim (question s) \<noteq> [] \<and> (\<exists>name \<in> set (cardNames s). trim name \<noteq> [])
        \<and> (k = None \<or> k = Some []) \<longrightarrow>
        generateReading k s = (s\<lparr>error := apiKey_error\<rparr>, []))
   \<and> distinct [question_error, cards_error, apiKey_error]"
  using msgs_distinct by (auto simp add: gen_question gen_cards gen_key)

theorem first_failing_check_decides_witness:
  "trim [] = []
   \<and> generateReading None (initial\<lparr>cardNames := [ascii ''Sun'']\<rparr>)
      = (initial\<lparr>cardNames := [ascii ''Sun''], error := question_error\<rparr>, [])
   \<and> generateReading None initial = (initial\<lparr>error := question_error\<rparr>, [])
   \<and> trim (ascii ''Why?'') \<noteq> []
   \<and> generateReading None (initial\<lparr>question := ascii ''Why?''\<rparr>)
      = (initial\<lparr>question := ascii ''Why?'', error := cards_error\<rparr>, [])
   \<and> trim (ascii ''Sun'') \<noteq> []
   \<and> generateReading None (initial\<lparr>question := ascii ''Why?'', cardNames := [ascii ''Sun'']\<rparr>)
      = (initial\<lparr>question := ascii ''Why?'', cardNames := [ascii ''Sun''], error := apiKey_error\<rparr>, [])
   \<and> question_error \<noteq> apiKey_error"
proof -
  let ?a = "initial\<lparr>cardNames := [ascii ''Sun'']\<rparr>"
  let ?b = "initial\<lparr>question := ascii ''Why?''\<rparr>"
  let ?c = "initial\<lparr>question := ascii ''Why?'', cardNames := [ascii ''Sun'']\<rparr>"
  have qa: "trim (question ?a) = []" and qi: "trim (question initial) = []"
    by (simp_all add: initial_def trim_examples)
  have qb: "trim (question ?b) \<noteq> [] \<and> (\<forall>name \<in> set (cardNames ?b). trim name = [])"
    by (simp add: initial_def trim_examples ascii_examples)
  have qc: "trim (question ?c) \<noteq> [] \<and> (\<exists>name \<in> set (cardNames ?c). trim name \<noteq> [])
      \<and> ((None :: jsstring option) = None \<or> (None :: jsstring option) = Some [])"
    by (simp add: trim_examples ascii_examples)
  note claim = first_failing_check_decides
  from claim [of ?a None] qa
  have a: "generateReading None ?a = (?a\<lparr>error := question_error\<rparr>, [])"
    by blast
  from claim [of initial None] qi
  have i: "generateReading None initial = (initial\<lparr>error := question_error\<rparr>, [])"
    by blast
  from claim [of ?b None] qb
  have b: "generateReading None ?b = (?b\<lparr>error := cards_error\<rparr>, [])"
    by blast
  from claim [of ?c None] qc
  have c: "generateReading None ?c = (?c\<lparr>error := apiKey_error\<rparr>, [])"
    by blast
  from claim [of initial None] have d: "question_error \<noteq> apiKey_error"
    by simp
  from a i b c d show ?thesis
    by (simp add: trim_examples ascii_examples initial_def)
qed

end
